theory Spec2Isabelle
  imports Complex_Main "HOL-Library.Sublist"
begin

section \<open>FlowchartCompletion: stripping the blank marker from a step label\<close>












section \<open>SafeAudioPlayer: the component as a state machine\<close>

text \<open>
  The component (SafeAudioPlayer.tsx) is a set of callbacks over React state, two refs and the
  audio elements it creates. Each callback runs to completion, so the component is a
  transition function over a record of that state, one event at a time. JavaScript numbers
  are real numbers here, and \<^verbatim>\<open>NaN\<close> (the duration of an element without metadata) is
  \<open>None\<close>.
\<close>

datatype decision = Pending | Real | Fallback

datatype lifecycle = Fresh | Mounted | Unmounted

record props =
  audioUrl :: "string option"
  autoPlay :: bool
  onEnded :: bool
  onError :: bool

text \<open>
  \<open>onEnded\<close> and \<open>onError\<close> say whether the optional callback is supplied; a call of it is
  an entry of the output trace, like a console message or the HEAD request.
\<close>

datatype trace_item =
    ConsoleLog string
  | ConsoleError string
  | CallOnError string
  | CallOnEnded
  | FetchHead string

record audio =
  src :: string
  preload :: string
  volume :: real
  paused :: bool
  currentTime :: real
  mediaDuration :: "real option"

record player =
  lifecycle :: lifecycle
  props :: props
  loadError :: bool
  isLoading :: bool
  isPlaying :: bool
  progress :: real
  duration :: real
  isMuted :: bool
  audioRef :: "nat option"
  progressIntervalRef :: "nat option"
  loadCleanup :: "nat option"
  audios :: "nat \<Rightarrow> audio"
  listeners :: "nat \<Rightarrow> props option"
  nextAudio :: nat
  timers :: "nat list"
  nextTimer :: nat
  outputs :: "trace_item list"

text \<open>
  \<open>audios\<close> is the heap of audio elements, addressed by the order of their creation;
  \<open>listeners h\<close> holds the props that the event handlers of element \<open>h\<close> close over (lines
  81-106); \<open>loadCleanup\<close> is the element that the cleanup returned by the load effect closes
  over (lines 127-130), absent when the effect returned early; \<open>timers\<close> are the running
  intervals. Interval ids are positive, so a stored id is truthy.
\<close>

definition newAudio :: audio where
  "newAudio = \<lparr>src = [], preload = [], volume = 1, paused = True, currentTime = 0,
     mediaDuration = None\<rparr>"

definition init :: player where
  "init = \<lparr>lifecycle = Fresh,
     props = \<lparr>audioUrl = None, autoPlay = False, onEnded = False, onError = False\<rparr>,
     loadError = False, isLoading = True, isPlaying = False, progress = 0, duration = 0,
     isMuted = False, audioRef = None, progressIntervalRef = None, loadCleanup = None,
     audios = (\<lambda>h. newAudio), listeners = (\<lambda>h. None), nextAudio = 0, timers = [],
     nextTimer = 1, outputs = []\<rparr>"

text \<open>JavaScript truthiness of the values the code tests.\<close>

definition truthy_url :: "string option \<Rightarrow> bool" where
  "truthy_url u = (case u of None \<Rightarrow> False | Some x \<Rightarrow> x \<noteq> [])"

definition truthy_num :: "real option \<Rightarrow> bool" where
  "truthy_num d = (case d of None \<Rightarrow> False | Some x \<Rightarrow> x \<noteq> 0)"

text \<open>A state setter of an unmounted component does nothing.\<close>

definition setLoadError :: "bool \<Rightarrow> player \<Rightarrow> player" where
  "setLoadError b s = (if lifecycle s = Mounted then s\<lparr>loadError := b\<rparr> else s)"

definition setIsLoading :: "bool \<Rightarrow> player \<Rightarrow> player" where
  "setIsLoading b s = (if lifecycle s = Mounted then s\<lparr>isLoading := b\<rparr> else s)"

definition setIsPlaying :: "bool \<Rightarrow> player \<Rightarrow> player" where
  "setIsPlaying b s = (if lifecycle s = Mounted then s\<lparr>isPlaying := b\<rparr> else s)"

definition setProgress :: "real \<Rightarrow> player \<Rightarrow> player" where
  "setProgress x s = (if lifecycle s = Mounted then s\<lparr>progress := x\<rparr> else s)"

definition setDuration :: "real \<Rightarrow> player \<Rightarrow> player" where
  "setDuration x s = (if lifecycle s = Mounted then s\<lparr>duration := x\<rparr> else s)"

definition setIsMuted :: "bool \<Rightarrow> player \<Rightarrow> player" where
  "setIsMuted b s = (if lifecycle s = Mounted then s\<lparr>isMuted := b\<rparr> else s)"

definition emit :: "trace_item \<Rightarrow> player \<Rightarrow> player" where
  "emit x s = s\<lparr>outputs := outputs s @ [x]\<rparr>"

definition audio_upd :: "nat \<Rightarrow> (audio \<Rightarrow> audio) \<Rightarrow> player \<Rightarrow> player" where
  "audio_upd h f s = s\<lparr>audios := (audios s)(h := f (audios s h))\<rparr>"

definition audio_pause :: "nat \<Rightarrow> player \<Rightarrow> player" where
  "audio_pause h = audio_upd h (\<lambda>a. a\<lparr>paused := True\<rparr>)"

definition audio_play :: "nat \<Rightarrow> player \<Rightarrow> player" where
  "audio_play h = audio_upd h (\<lambda>a. a\<lparr>paused := False\<rparr>)"

definition audio_set_src :: "nat \<Rightarrow> string \<Rightarrow> player \<Rightarrow> player" where
  "audio_set_src h u = audio_upd h (\<lambda>a. a\<lparr>src := u\<rparr>)"


definition clearInterval :: "nat \<Rightarrow> player \<Rightarrow> player" where
  "clearInterval t s = s\<lparr>timers := removeAll t (timers s)\<rparr>"

subsection \<open>Effects and their cleanups\<close>

text \<open>The cleanup registered on mount (lines 47-57).\<close>

definition unmountCleanup :: "player \<Rightarrow> player" where
  "unmountCleanup s =
     (let s1 = (case progressIntervalRef s of None \<Rightarrow> s | Some t \<Rightarrow> clearInterval t s)
      in case audioRef s1 of
           None \<Rightarrow> s1
         | Some h \<Rightarrow> audio_set_src h [] (audio_pause h s1))"

text \<open>The load effect (lines 60-126): the branch without a URL, and the branch that loads.\<close>

definition noUrlFallback :: "player \<Rightarrow> player" where
  "noUrlFallback s =
     (setIsLoading False
        (setLoadError True
           (emit (ConsoleLog ''SafeAudioPlayer: No audioUrl provided, using TTS fallback'') s)))
     \<lparr>loadCleanup := None\<rparr>"

definition startLoad :: "props \<Rightarrow> string \<Rightarrow> bool \<Rightarrow> player \<Rightarrow> player" where
  "startLoad p url muted s =
     (let h = nextAudio s;
          s1 = s\<lparr>nextAudio := Suc h, audios := (audios s)(h := newAudio)\<rparr>;
          s2 = s1\<lparr>audioRef := Some h\<rparr>;
          s3 = audio_upd h (\<lambda>a. a\<lparr>preload := ''auto''\<rparr>) s2;
          s4 = audio_upd h (\<lambda>a. a\<lparr>volume := (if muted then 0 else 1)\<rparr>) s3;
          s5 = s4\<lparr>listeners := (listeners s4)(h := Some p)\<rparr>;
          s6 = audio_set_src h url s5;
          s7 = emit (FetchHead url) s6
      in s7\<lparr>loadCleanup := Some h\<rparr>)"

definition loadEffect :: "props \<Rightarrow> player \<Rightarrow> player" where
  "loadEffect p s =
     (let s1 = setProgress 0 (setIsPlaying False (setIsLoading True (setLoadError False s)))
      in case audioUrl p of
           None \<Rightarrow> noUrlFallback s1
         | Some url \<Rightarrow>
             if url = [] then noUrlFallback s1 else startLoad p url (isMuted s) s1)"

text \<open>The cleanup returned by the load effect (lines 127-130).\<close>

definition loadEffectCleanup :: "player \<Rightarrow> player" where
  "loadEffectCleanup s =
     (case loadCleanup s of
        None \<Rightarrow> s
      | Some h \<Rightarrow> audio_set_src h [] (audio_pause h s))"

text \<open>The mute effect (lines 134-138).\<close>

definition mutedEffect :: "player \<Rightarrow> player" where
  "mutedEffect s =
     (case audioRef s of
        None \<Rightarrow> s
      | Some h \<Rightarrow> audio_upd h (\<lambda>a. a\<lparr>volume := (if isMuted s then 0 else 1)\<rparr>) s)"

text \<open>The progress effect, its interval callback and its cleanup (lines 141-161).\<close>

definition progressEffect :: "player \<Rightarrow> player" where
  "progressEffect s =
     (if isPlaying s \<and> audioRef s \<noteq> None \<and> \<not> loadError s
      then s\<lparr>progressIntervalRef := Some (nextTimer s), timers := timers s @ [nextTimer s],
              nextTimer := Suc (nextTimer s)\<rparr>
      else case progressIntervalRef s of
             None \<Rightarrow> s
           | Some t \<Rightarrow> (clearInterval t s)\<lparr>progressIntervalRef := None\<rparr>)"

definition progressTick :: "player \<Rightarrow> player" where
  "progressTick s =
     (case audioRef s of
        None \<Rightarrow> s
      | Some h \<Rightarrow>
          (case mediaDuration (audios s h) of
             None \<Rightarrow> s
           | Some d \<Rightarrow>
               if d = 0 then s else setProgress (currentTime (audios s h) / d * 100) s))"

definition progressEffectCleanup :: "player \<Rightarrow> player" where
  "progressEffectCleanup s =
     (case progressIntervalRef s of None \<Rightarrow> s | Some t \<Rightarrow> clearInterval t s)"

subsection \<open>Event handlers\<close>

text \<open>The handlers of the audio element (lines 81-106); \<open>d\<close> is \<^verbatim>\<open>audio.duration\<close>.\<close>

definition onloadedmetadata :: "nat \<Rightarrow> props \<Rightarrow> real \<Rightarrow> player \<Rightarrow> player" where
  "onloadedmetadata h p d s =
     (let s1 = emit (ConsoleLog ''SafeAudioPlayer: R2 audio loaded successfully'') s;
          s2 = setIsLoading False (setDuration d s1)
      in if autoPlay p then audio_play h s2 else s2)"

definition autoplayFailed :: "player \<Rightarrow> player" where
  "autoplayFailed s = emit (ConsoleError ''SafeAudioPlayer: Autoplay failed:'') s"

definition onplay :: "player \<Rightarrow> player" where
  "onplay s = setIsPlaying True s"

definition onpause :: "player \<Rightarrow> player" where
  "onpause s = setIsPlaying False s"

definition onended :: "props \<Rightarrow> player \<Rightarrow> player" where
  "onended p s =
     (let s1 = setProgress 0 (setIsPlaying False s)
      in if onEnded p then emit CallOnEnded s1 else s1)"

definition onerror :: "props \<Rightarrow> player \<Rightarrow> player" where
  "onerror p s =
     (let s1 = emit (ConsoleError ''SafeAudioPlayer: R2 Audio Failed, switching to TTS'') s;
          s2 = setIsLoading False (setLoadError True s1)
      in if onError p then emit (CallOnError ''Audio failed to load'') s2 else s2)"

text \<open>The rejection handler of the HEAD request (lines 118-125).\<close>

definition headCheckFailed :: "player \<Rightarrow> player" where
  "headCheckFailed s =
     (let s1 = emit (ConsoleError ''SafeAudioPlayer: HEAD check failed for R2 URL:'') s;
          s2 = (case audioRef s1 of None \<Rightarrow> s1 | Some h \<Rightarrow> audio_set_src h [] s1)
      in setIsLoading False (setLoadError True s2))"

text \<open>The control surface (lines 163-181 and 262).\<close>

definition togglePlay :: "player \<Rightarrow> player" where
  "togglePlay s =
     (case audioRef s of
        None \<Rightarrow> s
      | Some h \<Rightarrow> if isPlaying s then audio_pause h s else audio_play h s)"

definition playFailed :: "player \<Rightarrow> player" where
  "playFailed s = emit (ConsoleError []) s"

definition handleSeek :: "real \<Rightarrow> player \<Rightarrow> player" where
  "handleSeek v s =
     (case audioRef s of
        None \<Rightarrow> s
      | Some h \<Rightarrow>
          (case mediaDuration (audios s h) of
             None \<Rightarrow> s
           | Some d \<Rightarrow>
               if d = 0 then s
               else setProgress v (audio_upd h (\<lambda>a. a\<lparr>currentTime := v / 100 * d\<rparr>) s)))"

definition toggleMute :: "player \<Rightarrow> player" where
  "toggleMute s = setIsMuted (\<not> isMuted s) s"

subsection \<open>The transition function\<close>

text \<open>
  \<open>Resolve p\<close> is the mount with props \<open>p\<close>, or a later render in which a dependency of the
  load effect has changed. On mount the bodies of all effects run in their order; the
  progress effect sees \<^verbatim>\<open>isPlaying\<close> false, before and after the load effect. On a later
  render the cleanup of the load effect runs before its body.

  The media events name the element that fires them, and reach the handlers that were
  attached to it. \<open>HeadOk u\<close> and \<open>HeadFailed u\<close> are the two outcomes of the HEAD request for
  the URL \<open>u\<close>, a status that is not ok or a network failure being the second; its
  handlers close over nothing of the session that issued it. \<open>LoadedMetadata h d\<close>,
  \<open>TimeAdvance h t\<close>, \<open>Ended h\<close> and the two rejections carry what the element itself has
  changed before the handler runs.
\<close>

datatype event =
    Resolve props
  | Unmount
  | LoadedMetadata nat real
  | MediaError nat
  | Played nat
  | Paused nat
  | Ended nat
  | HeadOk string
  | HeadFailed string
  | AutoplayRejected nat
  | PlayRejected nat
  | TimeAdvance nat real
  | Tick nat
  | TogglePlay
  | Seek real
  | ToggleMute

fun handle :: "event \<Rightarrow> player \<Rightarrow> player" where
  "handle (Resolve p) s =
     (case lifecycle s of
        Fresh \<Rightarrow> progressEffect (mutedEffect (loadEffect p (s\<lparr>lifecycle := Mounted, props := p\<rparr>)))
      | Mounted \<Rightarrow> loadEffect p (loadEffectCleanup (s\<lparr>props := p\<rparr>))
      | Unmounted \<Rightarrow> s)"
| "handle Unmount s =
     (if lifecycle s = Mounted
      then (progressEffectCleanup (loadEffectCleanup (unmountCleanup s)))\<lparr>lifecycle := Unmounted\<rparr>
      else s)"
| "handle (LoadedMetadata h d) s =
     (case listeners s h of
        None \<Rightarrow> s
      | Some p \<Rightarrow> onloadedmetadata h p d (audio_upd h (\<lambda>a. a\<lparr>mediaDuration := Some d\<rparr>) s))"
| "handle (MediaError h) s = (case listeners s h of None \<Rightarrow> s | Some p \<Rightarrow> onerror p s)"
| "handle (Played h) s = (case listeners s h of None \<Rightarrow> s | Some p \<Rightarrow> onplay s)"
| "handle (Paused h) s = (case listeners s h of None \<Rightarrow> s | Some p \<Rightarrow> onpause s)"
| "handle (Ended h) s =
     (case listeners s h of None \<Rightarrow> s | Some p \<Rightarrow> onended p (audio_pause h s))"
| "handle (HeadOk u) s = s"
| "handle (HeadFailed u) s = headCheckFailed s"
| "handle (AutoplayRejected h) s = autoplayFailed (audio_pause h s)"
| "handle (PlayRejected h) s = playFailed (audio_pause h s)"
| "handle (TimeAdvance h t) s = audio_upd h (\<lambda>a. a\<lparr>currentTime := t\<rparr>) s"
| "handle (Tick t) s = (if t \<in> set (timers s) then progressTick s else s)"
| "handle TogglePlay s = togglePlay s"
| "handle (Seek v) s = handleSeek v s"
| "handle ToggleMute s = toggleMute s"

text \<open>
  After a handler has changed the state the component renders again, and the effects whose
  dependencies differ from the previous render run: the mute effect on \<^verbatim>\<open>isMuted\<close>, the
  progress effect (cleanup first) on \<^verbatim>\<open>isPlaying\<close> and \<^verbatim>\<open>loadError\<close>.
\<close>

definition rerender :: "player \<Rightarrow> player \<Rightarrow> player" where
  "rerender s0 s =
     (let s1 = (if isMuted s = isMuted s0 then s else mutedEffect s)
      in if isPlaying s = isPlaying s0 \<and> loadError s = loadError s0 then s1
         else progressEffect (progressEffectCleanup s1))"

definition step :: "event \<Rightarrow> player \<Rightarrow> player" where
  "step e s = rerender s (handle e s)"

fun run :: "event list \<Rightarrow> player \<Rightarrow> player" where
  "run [] s = s"
| "run (e # es) s = run es (step e s)"

subsection \<open>What the component shows\<close>

text \<open>
  The render (lines 193-238) takes the fallback branch when \<^verbatim>\<open>loadError || !audioUrl\<close>,
  and otherwise draws the real player, with a spinner while \<^verbatim>\<open>isLoading\<close>. The slider
  shows \<^verbatim>\<open>progress\<close>, a percentage; the published fraction is a hundredth of it.
\<close>

definition decision :: "player \<Rightarrow> decision" where
  "decision s =
     (if loadError s then Fallback
      else if truthy_url (audioUrl (props s))
           then (if isLoading s then Pending else Real)
           else Fallback)"

definition positionFraction :: "player \<Rightarrow> real" where
  "positionFraction s = progress s / 100"

definition onErrorCalls :: "player \<Rightarrow> trace_item list" where
  "onErrorCalls s = filter (\<lambda>x. case x of CallOnError m \<Rightarrow> True | _ \<Rightarrow> False) (outputs s)"

definition headRequests :: "player \<Rightarrow> trace_item list" where
  "headRequests s = filter (\<lambda>x. case x of FetchHead u \<Rightarrow> True | _ \<Rightarrow> False) (outputs s)"

definition is_Resolve :: "event \<Rightarrow> bool" where
  "is_Resolve e = (case e of Resolve p \<Rightarrow> True | _ \<Rightarrow> False)"

subsection \<open>Sessions and the environment\<close>

text \<open>
  A session lasts from one run of the load effect to the next; the events of a session are
  all events but \<open>Resolve\<close>.
\<close>

definition within_session :: "event list \<Rightarrow> bool" where
  "within_session es = list_all (\<lambda>e. \<not> is_Resolve e) es"

text \<open>
  The cleanups never detach the handlers of an element, so an element of an earlier session
  can still fire its error event. \<open>L\<close> says which elements have handlers attached; the
  error events of the list come from none of them.
\<close>

definition own_error :: "(nat \<Rightarrow> props option) \<Rightarrow> event \<Rightarrow> bool" where
  "own_error L e = (case e of MediaError h \<Rightarrow> L h = None | _ \<Rightarrow> True)"

definition no_stale_error :: "(nat \<Rightarrow> props option) \<Rightarrow> event list \<Rightarrow> bool" where
  "no_stale_error L es = list_all (own_error L) es"

text \<open>
  What the slider and an audio element guarantee: the slider (\<^verbatim>\<open>max={100}\<close>) hands
  \<^verbatim>\<open>handleSeek\<close> a value between 0 and 100; an element reports its metadata once, with a
  duration that is not negative; its position is 0 until then and stays within the duration
  afterwards.
\<close>

definition audio_ok :: "audio \<Rightarrow> bool" where
  "audio_ok a =
     (case mediaDuration a of
        None \<Rightarrow> currentTime a = 0
      | Some d \<Rightarrow> 0 \<le> currentTime a \<and> currentTime a \<le> d)"

fun env_ok :: "event \<Rightarrow> player \<Rightarrow> bool" where
  "env_ok (Seek v) s = (0 \<le> v \<and> v \<le> 100)"
| "env_ok (LoadedMetadata h d) s = (mediaDuration (audios s h) = None \<and> 0 \<le> d)"
| "env_ok (TimeAdvance h t) s =
     (case mediaDuration (audios s h) of None \<Rightarrow> False | Some d \<Rightarrow> 0 \<le> t \<and> t \<le> d)"
| "env_ok e s = True"

fun env_run :: "event list \<Rightarrow> player \<Rightarrow> bool" where
  "env_run [] s = True"
| "env_run (e # es) s = (env_ok e s \<and> env_run es (step e s))"

text \<open>
  The two invariants behind the progress display: the published percentage is within range
  and is 0 as long as the current element has no usable duration; and, while the component
  is mounted, an interval runs exactly when the progress effect's condition holds.
\<close>

definition progress_inv :: "player \<Rightarrow> bool" where
  "progress_inv s =
     ((\<forall>h. audio_ok (audios s h)) \<and> 0 \<le> progress s \<and> progress s \<le> 100 \<and>
      (case audioRef s of
         None \<Rightarrow> progress s = 0
       | Some h \<Rightarrow> truthy_num (mediaDuration (audios s h)) \<or> progress s = 0))"

definition sampling_inv :: "player \<Rightarrow> bool" where
  "sampling_inv s =
     (lifecycle s = Mounted \<longrightarrow>
        (truthy_url (audioUrl (props s)) \<longrightarrow> audioRef s \<noteq> None) \<and>
        (if isPlaying s \<and> audioRef s \<noteq> None \<and> \<not> loadError s
         then \<exists>t. progressIntervalRef s = Some t \<and> t \<in> set (timers s)
         else progressIntervalRef s = None))"

text \<open>
  The fraction as the specification words it, for comparison with what a tick of the
  interval publishes: the position divided by the duration, and 0 when the duration is
  unknown or zero.
\<close>

definition spec_positionFraction :: "audio \<Rightarrow> real" where
  "spec_positionFraction a =
     (case mediaDuration a of
        None \<Rightarrow> 0
      | Some d \<Rightarrow> if d = 0 then 0 else currentTime a / d)"

text \<open>The props of the scenarios: a supplied asset reference, with and without autoplay.\<close>

definition assetProps :: "bool \<Rightarrow> props" where
  "assetProps auto = \<lparr>audioUrl = Some ''https://x/a.mp3'', autoPlay = auto, onEnded = True,
     onError = True\<rparr>"

definition otherProps :: props where
  "otherProps = \<lparr>audioUrl = Some ''https://x/b.mp3'', autoPlay = False, onEnded = True,
     onError = True\<rparr>"

definition absentProps :: props where
  "absentProps = \<lparr>audioUrl = None, autoPlay = False, onEnded = True, onError = True\<rparr>"

text \<open>
  A component that has created no audio element and issued no request: the state of a
  first session without an asset reference.
\<close>

definition quiet :: "player \<Rightarrow> bool" where
  "quiet s =
     (listeners s = (\<lambda>h. None) \<and> audioRef s = None \<and> nextAudio s = 0 \<and>
      headRequests s = [] \<and> onErrorCalls s = [])"

section \<open>Properties of SafeAudioPlayer\<close>

lemmas setter_defs = setLoadError_def setIsLoading_def setIsPlaying_def setProgress_def
  setDuration_def setIsMuted_def

lemmas prim_defs = emit_def audio_upd_def audio_pause_def audio_play_def audio_set_src_def
  clearInterval_def

lemmas effect_defs = unmountCleanup_def noUrlFallback_def startLoad_def loadEffect_def
  loadEffectCleanup_def mutedEffect_def progressEffect_def progressTick_def
  progressEffectCleanup_def

lemmas handler_defs = onloadedmetadata_def autoplayFailed_def onplay_def onpause_def
  onended_def onerror_def headCheckFailed_def togglePlay_def playFailed_def handleSeek_def
  toggleMute_def

lemmas player_defs = setter_defs prim_defs effect_defs handler_defs

lemmas scenario_defs = init_def newAudio_def assetProps_def otherProps_def absentProps_def
  step_def rerender_def decision_def truthy_url_def truthy_num_def positionFraction_def
  onErrorCalls_def headRequests_def within_session_def is_Resolve_def

subsection \<open>What a render leaves alone\<close>

lemma rerender_frame:
  "lifecycle (rerender s0 s) = lifecycle s"
  "props (rerender s0 s) = props s"
  "loadError (rerender s0 s) = loadError s"
  "isLoading (rerender s0 s) = isLoading s"
  "isPlaying (rerender s0 s) = isPlaying s"
  "progress (rerender s0 s) = progress s"
  "duration (rerender s0 s) = duration s"
  "isMuted (rerender s0 s) = isMuted s"
  "audioRef (rerender s0 s) = audioRef s"
  "loadCleanup (rerender s0 s) = loadCleanup s"
  "listeners (rerender s0 s) = listeners s"
  "nextAudio (rerender s0 s) = nextAudio s"
  "outputs (rerender s0 s) = outputs s"
  by (simp_all add: rerender_def Let_def mutedEffect_def progressEffect_def
      progressEffectCleanup_def prim_defs split: option.splits)

lemma rerender_audio:
  "src (audios (rerender s0 s) h) = src (audios s h)"
  "paused (audios (rerender s0 s) h) = paused (audios s h)"
  "currentTime (audios (rerender s0 s) h) = currentTime (audios s h)"
  "mediaDuration (audios (rerender s0 s) h) = mediaDuration (audios s h)"
  by (simp_all add: rerender_def Let_def mutedEffect_def progressEffect_def
      progressEffectCleanup_def prim_defs split: option.splits)

lemma decision_rerender: "decision (rerender s0 s) = decision s"
  by (simp add: decision_def rerender_frame)

lemma decision_step: "decision (step e s) = decision (handle e s)"
  by (simp only: step_def decision_rerender)

lemma rerender_same:
  "isMuted s = isMuted s0 \<Longrightarrow> isPlaying s = isPlaying s0 \<Longrightarrow> loadError s = loadError s0
     \<Longrightarrow> rerender s0 s = s"
  by (simp add: rerender_def)

subsection \<open>What the events of a session leave alone\<close>

lemma handle_props: "\<not> is_Resolve e \<Longrightarrow> props (handle e s) = props s"
  by (cases e) (simp_all add: is_Resolve_def player_defs Let_def split: option.splits)

lemma handle_loadError: "\<not> is_Resolve e \<Longrightarrow> loadError s \<Longrightarrow> loadError (handle e s)"
  by (cases e) (simp_all add: is_Resolve_def player_defs Let_def split: option.splits)

lemma handle_isLoading: "\<not> is_Resolve e \<Longrightarrow> \<not> isLoading s \<Longrightarrow> \<not> isLoading (handle e s)"
  by (cases e) (simp_all add: is_Resolve_def player_defs Let_def split: option.splits)

lemma step_keeps_fallback:
  assumes "\<not> is_Resolve e" and "decision s = Fallback"
  shows "decision (step e s) = Fallback"
proof -
  have p: "props (handle e s) = props s" using assms(1) by (rule handle_props)
  show ?thesis
  proof (cases "loadError s")
    case True
    with assms(1) have "loadError (handle e s)" by (simp add: handle_loadError)
    then show ?thesis unfolding decision_step by (simp add: decision_def)
  next
    case False
    with assms(2) have "\<not> truthy_url (audioUrl (props s))"
      by (simp add: decision_def split: if_splits)
    with p show ?thesis unfolding decision_step by (simp add: decision_def)
  qed
qed

lemma step_leaves_pending:
  assumes "\<not> is_Resolve e" and "decision s \<noteq> Pending"
  shows "decision (step e s) \<noteq> Pending"
proof (cases "decision s = Fallback")
  case True
  with assms(1) have "decision (step e s) = Fallback" by (simp add: step_keeps_fallback)
  then show ?thesis by simp
next
  case False
  with assms(2) have "\<not> isLoading s" by (simp add: decision_def split: if_splits)
  with assms(1) have "\<not> isLoading (handle e s)" by (simp add: handle_isLoading)
  then show ?thesis unfolding decision_step by (simp add: decision_def)
qed

lemma run_keeps_fallback:
  "within_session es \<Longrightarrow> decision s = Fallback \<Longrightarrow> decision (run es s) = Fallback"
  by (induction es arbitrary: s) (simp_all add: within_session_def step_keeps_fallback)

lemma run_leaves_pending:
  "within_session es \<Longrightarrow> decision s \<noteq> Pending \<Longrightarrow> decision (run es s) \<noteq> Pending"
  by (induction es arbitrary: s) (simp_all add: within_session_def step_leaves_pending)

lemma headFailed_mounted:
  assumes "lifecycle s = Mounted"
  shows "loadError (step (HeadFailed u) s)" and "decision (step (HeadFailed u) s) = Fallback"
proof -
  show l: "loadError (step (HeadFailed u) s)"
    using assms
    by (simp add: step_def rerender_frame headCheckFailed_def setter_defs prim_defs Let_def
        split: option.splits)
  then show "decision (step (HeadFailed u) s) = Fallback" by (simp add: decision_def)
qed

subsection \<open>What the cleanups leave alone\<close>

lemma unmountCleanup_frame:
  "lifecycle (unmountCleanup s) = lifecycle s"
  "props (unmountCleanup s) = props s"
  "loadError (unmountCleanup s) = loadError s"
  "isLoading (unmountCleanup s) = isLoading s"
  "isPlaying (unmountCleanup s) = isPlaying s"
  "progress (unmountCleanup s) = progress s"
  "isMuted (unmountCleanup s) = isMuted s"
  "audioRef (unmountCleanup s) = audioRef s"
  "progressIntervalRef (unmountCleanup s) = progressIntervalRef s"
  "loadCleanup (unmountCleanup s) = loadCleanup s"
  "listeners (unmountCleanup s) = listeners s"
  "nextAudio (unmountCleanup s) = nextAudio s"
  "outputs (unmountCleanup s) = outputs s"
  by (simp_all add: unmountCleanup_def prim_defs Let_def split: option.splits)

lemma loadEffectCleanup_frame:
  "lifecycle (loadEffectCleanup s) = lifecycle s"
  "props (loadEffectCleanup s) = props s"
  "loadError (loadEffectCleanup s) = loadError s"
  "isLoading (loadEffectCleanup s) = isLoading s"
  "isPlaying (loadEffectCleanup s) = isPlaying s"
  "progress (loadEffectCleanup s) = progress s"
  "isMuted (loadEffectCleanup s) = isMuted s"
  "audioRef (loadEffectCleanup s) = audioRef s"
  "progressIntervalRef (loadEffectCleanup s) = progressIntervalRef s"
  "loadCleanup (loadEffectCleanup s) = loadCleanup s"
  "listeners (loadEffectCleanup s) = listeners s"
  "nextAudio (loadEffectCleanup s) = nextAudio s"
  "timers (loadEffectCleanup s) = timers s"
  "outputs (loadEffectCleanup s) = outputs s"
  by (simp_all add: loadEffectCleanup_def prim_defs split: option.splits)

lemma progressEffectCleanup_frame:
  "lifecycle (progressEffectCleanup s) = lifecycle s"
  "props (progressEffectCleanup s) = props s"
  "loadError (progressEffectCleanup s) = loadError s"
  "isLoading (progressEffectCleanup s) = isLoading s"
  "isPlaying (progressEffectCleanup s) = isPlaying s"
  "progress (progressEffectCleanup s) = progress s"
  "isMuted (progressEffectCleanup s) = isMuted s"
  "audioRef (progressEffectCleanup s) = audioRef s"
  "progressIntervalRef (progressEffectCleanup s) = progressIntervalRef s"
  "loadCleanup (progressEffectCleanup s) = loadCleanup s"
  "listeners (progressEffectCleanup s) = listeners s"
  "nextAudio (progressEffectCleanup s) = nextAudio s"
  "audios (progressEffectCleanup s) = audios s"
  "outputs (progressEffectCleanup s) = outputs s"
  by (simp_all add: progressEffectCleanup_def prim_defs split: option.splits)

lemmas cleanup_frame = unmountCleanup_frame loadEffectCleanup_frame progressEffectCleanup_frame

subsection \<open>The decision within a session\<close>

text \<open>
  Claim C1, as the code has it. Within a session a Fallback decision never reverts and the
  decision never returns to Pending. A Real decision is not final: the rejection handler
  of the HEAD request sets \<^verbatim>\<open>loadError\<close> whenever it runs on the mounted component, so a
  probe failure that arrives after the metadata turns Real into Fallback.
\<close>

theorem decision_sticky_within_session:
  assumes "within_session es"
  shows "(decision s = Fallback \<longrightarrow> decision (run es s) = Fallback) \<and>
         (decision s \<noteq> Pending \<longrightarrow> decision (run es s) \<noteq> Pending) \<and>
         (lifecycle s = Mounted \<longrightarrow> decision (step (HeadFailed u) s) = Fallback)"
  using assms by (simp add: run_keeps_fallback run_leaves_pending headFailed_mounted)

theorem decision_sticky_within_session_witness:
  "within_session [HeadFailed ''https://x/a.mp3'', LoadedMetadata 0 30, Played 0] \<and>
   lifecycle (run [Resolve (assetProps False), LoadedMetadata 0 30] init) = Mounted \<and>
   decision (run [Resolve (assetProps False), LoadedMetadata 0 30] init) = Real \<and>
   decision (step (HeadFailed ''https://x/a.mp3'') (run [Resolve (assetProps False), LoadedMetadata 0 30] init))
     = Fallback \<and>
   decision (run [HeadFailed ''https://x/a.mp3'', LoadedMetadata 0 30, Played 0]
     (run [Resolve (assetProps False), LoadedMetadata 0 30] init)) \<noteq> Pending"
proof -
  let ?s = "run [Resolve (assetProps False), LoadedMetadata 0 30] init"
  have w: "within_session [HeadFailed ''https://x/a.mp3'', LoadedMetadata 0 30, Played 0]"
    by (simp add: within_session_def is_Resolve_def)
  have m: "lifecycle ?s = Mounted" by code_simp
  have r: "decision ?s = Real" by code_simp
  show ?thesis
    using w m r decision_sticky_within_session [OF w, of ?s] by simp
qed

text \<open>
  Claim C1 as stated fails: the metadata arrives and the decision is Real; then the HEAD
  request fails and the decision is Fallback.
\<close>

theorem late_probe_failure_counterexample:
  "decision (run [Resolve (assetProps False), LoadedMetadata 0 30] init) = Real \<and>
   decision (run [Resolve (assetProps False), LoadedMetadata 0 30, HeadFailed ''https://x/a.mp3''] init) = Fallback"
  by code_simp

subsection \<open>A failed HEAD request\<close>

lemma headFailed_src:
  "audioRef s = Some h \<Longrightarrow> src (audios (step (HeadFailed u) s) h) = []"
  by (simp add: step_def rerender_audio headCheckFailed_def setter_defs prim_defs Let_def)

text \<open>
  Claim C2. When the HEAD request fails on the mounted component, the decision is Fallback
  at once, the source of the element in \<^verbatim>\<open>audioRef\<close> is cleared, which abandons its load,
  and the decision is still Fallback after any later events of the session, a later
  \<^verbatim>\<open>loadedmetadata\<close> among them: that handler never clears \<^verbatim>\<open>loadError\<close>.
\<close>

theorem probe_failure_commits_fallback:
  assumes "lifecycle s = Mounted" and "audioRef s = Some h" and "within_session es"
  shows "decision (step (HeadFailed u) s) = Fallback \<and>
         src (audios (step (HeadFailed u) s) h) = [] \<and>
         decision (step (LoadedMetadata h d) (step (HeadFailed u) s)) = Fallback \<and>
         decision (run es (step (HeadFailed u) s)) = Fallback"
proof -
  have f: "decision (step (HeadFailed u) s) = Fallback"
    using assms(1) by (rule headFailed_mounted)
  have "\<not> is_Resolve (LoadedMetadata h d)" by (simp add: is_Resolve_def)
  then have "decision (step (LoadedMetadata h d) (step (HeadFailed u) s)) = Fallback"
    using f by (rule step_keeps_fallback)
  moreover have "decision (run es (step (HeadFailed u) s)) = Fallback"
    using assms(3) f by (rule run_keeps_fallback)
  moreover have "src (audios (step (HeadFailed u) s) h) = []"
    using assms(2) by (rule headFailed_src)
  ultimately show ?thesis using f by simp
qed

theorem probe_failure_commits_fallback_witness:
  "lifecycle (step (Resolve (assetProps True)) init) = Mounted \<and>
   audioRef (step (Resolve (assetProps True)) init) = Some 0 \<and>
   decision (step (Resolve (assetProps True)) init) = Pending \<and>
   src (audios (step (Resolve (assetProps True)) init) 0) = ''https://x/a.mp3'' \<and>
   within_session [LoadedMetadata 0 30, Played 0, HeadOk ''https://x/a.mp3''] \<and>
   decision (step (HeadFailed ''https://x/a.mp3'') (step (Resolve (assetProps True)) init)) = Fallback \<and>
   src (audios (step (HeadFailed ''https://x/a.mp3'') (step (Resolve (assetProps True)) init)) 0) = [] \<and>
   decision (step (LoadedMetadata 0 30) (step (HeadFailed ''https://x/a.mp3'') (step (Resolve (assetProps True)) init)))
     = Fallback \<and>
   decision (run [LoadedMetadata 0 30, Played 0, HeadOk ''https://x/a.mp3'']
     (step (HeadFailed ''https://x/a.mp3'') (step (Resolve (assetProps True)) init))) = Fallback"
proof -
  let ?s = "step (Resolve (assetProps True)) init"
  have m: "lifecycle ?s = Mounted" by code_simp
  have a: "audioRef ?s = Some 0" by code_simp
  have p: "decision ?s = Pending" by code_simp
  have u: "src (audios ?s 0) = ''https://x/a.mp3''" by code_simp
  have w: "within_session [LoadedMetadata 0 30, Played 0, HeadOk ''https://x/a.mp3'']"
    by (simp add: within_session_def is_Resolve_def)
  show ?thesis
    using m a p u w probe_failure_commits_fallback [OF m a w, where d = 30 and u = "''https://x/a.mp3''"] by simp
qed


subsection \<open>A session without an asset reference\<close>

lemma handle_quiet: "\<not> is_Resolve e \<Longrightarrow> quiet s \<Longrightarrow> quiet (handle e s)"
proof (cases e)
  case Unmount
  assume "quiet s"
  then show ?thesis unfolding Unmount
    by (simp add: quiet_def headRequests_def onErrorCalls_def cleanup_frame)
qed (simp_all add: is_Resolve_def quiet_def headRequests_def onErrorCalls_def setter_defs
      prim_defs handler_defs progressTick_def Let_def split: option.splits)

lemma step_quiet: "\<not> is_Resolve e \<Longrightarrow> quiet s \<Longrightarrow> quiet (step e s)"
proof -
  assume a: "\<not> is_Resolve e" "quiet s"
  have "quiet (rerender s (handle e s)) = quiet (handle e s)"
    by (simp add: quiet_def headRequests_def onErrorCalls_def rerender_frame)
  with a show ?thesis by (simp add: step_def handle_quiet)
qed

lemma run_quiet: "within_session es \<Longrightarrow> quiet s \<Longrightarrow> quiet (run es s)"
  by (induction es arbitrary: s) (simp_all add: within_session_def step_quiet)

lemma effects_frame:
  "props (mutedEffect s) = props s"
  "outputs (mutedEffect s) = outputs s"
  "nextAudio (mutedEffect s) = nextAudio s"
  "listeners (mutedEffect s) = listeners s"
  "audioRef (mutedEffect s) = audioRef s"
  "props (progressEffect s) = props s"
  "outputs (progressEffect s) = outputs s"
  "nextAudio (progressEffect s) = nextAudio s"
  "listeners (progressEffect s) = listeners s"
  "audioRef (progressEffect s) = audioRef s"
  by (simp_all add: mutedEffect_def progressEffect_def prim_defs split: option.splits)

lemma loadEffect_absent:
  assumes "\<not> truthy_url (audioUrl p)"
  shows "props (loadEffect p s) = props s"
    and "outputs (loadEffect p s) =
      outputs s @ [ConsoleLog ''SafeAudioPlayer: No audioUrl provided, using TTS fallback'']"
    and "nextAudio (loadEffect p s) = nextAudio s"
    and "listeners (loadEffect p s) = listeners s"
    and "audioRef (loadEffect p s) = audioRef s"
proof -
  have eq: "loadEffect p s =
      noUrlFallback (setProgress 0 (setIsPlaying False (setIsLoading True (setLoadError False s))))"
    using assms by (simp add: loadEffect_def truthy_url_def Let_def split: option.splits)
  show "props (loadEffect p s) = props s"
    and "outputs (loadEffect p s) =
      outputs s @ [ConsoleLog ''SafeAudioPlayer: No audioUrl provided, using TTS fallback'']"
    and "nextAudio (loadEffect p s) = nextAudio s"
    and "listeners (loadEffect p s) = listeners s"
    and "audioRef (loadEffect p s) = audioRef s"
    unfolding eq by (simp_all add: noUrlFallback_def setter_defs emit_def)
qed

lemma resolve_absent_handle:
  assumes "\<not> truthy_url (audioUrl p)" and "lifecycle s \<noteq> Unmounted"
  shows "decision (handle (Resolve p) s) = Fallback"
    and "outputs (handle (Resolve p) s) =
      outputs s @ [ConsoleLog ''SafeAudioPlayer: No audioUrl provided, using TTS fallback'']"
    and "nextAudio (handle (Resolve p) s) = nextAudio s"
    and "listeners (handle (Resolve p) s) = listeners s"
    and "audioRef (handle (Resolve p) s) = audioRef s"
proof -
  have "props (handle (Resolve p) s) = p"
    using assms(2)
    by (cases "lifecycle s")
       (simp_all add: effects_frame loadEffect_absent [OF assms(1)] loadEffectCleanup_frame)
  then show "decision (handle (Resolve p) s) = Fallback"
    using assms(1) by (simp add: decision_def)
  show "outputs (handle (Resolve p) s) =
      outputs s @ [ConsoleLog ''SafeAudioPlayer: No audioUrl provided, using TTS fallback'']"
    and "nextAudio (handle (Resolve p) s) = nextAudio s"
    and "listeners (handle (Resolve p) s) = listeners s"
    and "audioRef (handle (Resolve p) s) = audioRef s"
    using assms(2)
    by (cases "lifecycle s";
        simp add: effects_frame loadEffect_absent [OF assms(1)] loadEffectCleanup_frame)+
qed

lemma resolve_absent_init:
  assumes "\<not> truthy_url (audioUrl p)"
  shows "quiet (step (Resolve p) init)"
proof -
  have l: "lifecycle init \<noteq> Unmounted" by (simp add: init_def)
  have "quiet init" by (simp add: quiet_def init_def headRequests_def onErrorCalls_def)
  then show ?thesis
    using resolve_absent_handle(2-5) [OF assms l]
    by (simp add: quiet_def step_def rerender_frame headRequests_def onErrorCalls_def)
qed

lemma handle_trace_frame:
  assumes "\<not> is_Resolve e"
  shows "headRequests (handle e s) = headRequests s" and "nextAudio (handle e s) = nextAudio s"
    and "audioRef (handle e s) = audioRef s"
proof -
  have "headRequests (handle e s) = headRequests s \<and> nextAudio (handle e s) = nextAudio s \<and>
      audioRef (handle e s) = audioRef s"
  proof (cases "e = Unmount")
    case True
    then show ?thesis by (simp add: headRequests_def cleanup_frame)
  next
    case False
    with assms show ?thesis
      by (cases e; simp add: is_Resolve_def headRequests_def setter_defs prim_defs handler_defs
            progressTick_def Let_def split: option.splits)
  qed
  then show "headRequests (handle e s) = headRequests s"
    and "nextAudio (handle e s) = nextAudio s" and "audioRef (handle e s) = audioRef s"
    by simp_all
qed

lemma handle_listeners:
  assumes "\<not> is_Resolve e"
  shows "listeners (handle e s) = listeners s"
proof (cases "e = Unmount")
  case True
  then show ?thesis by (simp add: cleanup_frame)
next
  case False
  with assms show ?thesis
    by (cases e; simp add: is_Resolve_def setter_defs prim_defs handler_defs progressTick_def
          Let_def split: option.splits)
qed

lemma handle_onError_frame:
  assumes "\<not> is_Resolve e" and "own_error (listeners s) e"
  shows "onErrorCalls (handle e s) = onErrorCalls s"
proof (cases "e = Unmount")
  case True
  then show ?thesis by (simp add: onErrorCalls_def cleanup_frame)
next
  case False
  with assms show ?thesis
    by (cases e; simp add: is_Resolve_def own_error_def onErrorCalls_def setter_defs
          prim_defs handler_defs progressTick_def Let_def split: option.splits)
qed

lemma step_trace_frame:
  assumes "\<not> is_Resolve e"
  shows "headRequests (step e s) = headRequests s" and "nextAudio (step e s) = nextAudio s"
    and "audioRef (step e s) = audioRef s"
  using handle_trace_frame [OF assms, of s]
  by (simp_all add: step_def headRequests_def rerender_frame)

lemma step_onError_frame:
  assumes "\<not> is_Resolve e" and "own_error (listeners s) e"
  shows "onErrorCalls (step e s) = onErrorCalls s"
  using handle_onError_frame [OF assms]
  by (simp add: step_def onErrorCalls_def rerender_frame)

lemma step_listeners: "\<not> is_Resolve e \<Longrightarrow> listeners (step e s) = listeners s"
  by (simp add: step_def rerender_frame handle_listeners)

lemma run_trace_frame:
  "within_session es \<Longrightarrow>
     headRequests (run es s) = headRequests s \<and> nextAudio (run es s) = nextAudio s \<and>
     audioRef (run es s) = audioRef s"
  by (induction es arbitrary: s) (simp_all add: within_session_def step_trace_frame)

lemma run_onError_frame:
  "within_session es \<Longrightarrow> no_stale_error (listeners s) es \<Longrightarrow>
     onErrorCalls (run es s) = onErrorCalls s"
proof (induction es arbitrary: s)
  case Nil
  show ?case by simp
next
  case (Cons e es)
  have e: "\<not> is_Resolve e" "own_error (listeners s) e"
    using Cons.prems by (simp_all add: within_session_def no_stale_error_def)
  have l: "listeners (step e s) = listeners s" using e(1) by (rule step_listeners)
  have "onErrorCalls (run es (step e s)) = onErrorCalls (step e s)"
    using Cons.prems by (intro Cons.IH) (simp_all add: within_session_def no_stale_error_def l)
  then show ?case using e by (simp add: step_onError_frame)
qed

text \<open>
  Claim C4, as the code has it. When the asset reference is absent (or the empty string,
  which is falsy too), the load effect takes its first branch: after that one step the
  decision is Fallback, no HEAD request has been added to the trace, no \<^verbatim>\<open>onError\<close> call
  has been added, and no audio element has been created or attached. For the rest of the
  session the decision stays Fallback, no HEAD request is issued and no element is created.
  No event of the session calls \<^verbatim>\<open>onError\<close> but the error event of an element that has
  handlers attached, and the session attaches none: in a first session \<^verbatim>\<open>onError\<close> is
  never called.
\<close>

theorem absent_reference_falls_back_silently:
  assumes "\<not> truthy_url (audioUrl p)" and "lifecycle s \<noteq> Unmounted"
  shows "decision (step (Resolve p) s) = Fallback \<and>
         headRequests (step (Resolve p) s) = headRequests s \<and>
         onErrorCalls (step (Resolve p) s) = onErrorCalls s \<and>
         nextAudio (step (Resolve p) s) = nextAudio s \<and>
         listeners (step (Resolve p) s) = listeners s \<and>
         audioRef (step (Resolve p) s) = audioRef s \<and>
         (within_session es \<longrightarrow>
            decision (run es (step (Resolve p) s)) = Fallback \<and>
            headRequests (run es (step (Resolve p) s)) = headRequests s \<and>
            nextAudio (run es (step (Resolve p) s)) = nextAudio s \<and>
            listeners (run es (step (Resolve p) s)) = listeners s \<and>
            audioRef (run es (step (Resolve p) s)) = audioRef s) \<and>
         (within_session es \<and> no_stale_error (listeners s) es \<longrightarrow>
            onErrorCalls (run es (step (Resolve p) s)) = onErrorCalls s) \<and>
         (within_session es \<longrightarrow>
            onErrorCalls (run es (step (Resolve p) init)) = [] \<and>
            headRequests (run es (step (Resolve p) init)) = [] \<and>
            nextAudio (run es (step (Resolve p) init)) = 0 \<and>
            audioRef (run es (step (Resolve p) init)) = None)"
proof -
  note h = resolve_absent_handle [OF assms]
  have one: "decision (step (Resolve p) s) = Fallback"
    using h(1) by (simp only: decision_step)
  have rest: "headRequests (step (Resolve p) s) = headRequests s"
    "onErrorCalls (step (Resolve p) s) = onErrorCalls s"
    "nextAudio (step (Resolve p) s) = nextAudio s"
    "listeners (step (Resolve p) s) = listeners s"
    "audioRef (step (Resolve p) s) = audioRef s"
    using h(2-5) by (simp_all add: step_def rerender_frame headRequests_def onErrorCalls_def)
  have ls: "listeners (run es t) = listeners t" if "within_session es" for t
    using that by (induction es arbitrary: t) (simp_all add: within_session_def step_listeners)
  have later: "decision (run es (step (Resolve p) s)) = Fallback \<and>
      headRequests (run es (step (Resolve p) s)) = headRequests s \<and>
      nextAudio (run es (step (Resolve p) s)) = nextAudio s \<and>
      listeners (run es (step (Resolve p) s)) = listeners s \<and>
      audioRef (run es (step (Resolve p) s)) = audioRef s" if w: "within_session es"
    using run_keeps_fallback [OF w one] run_trace_frame [OF w, of "step (Resolve p) s"]
      ls [OF w, of "step (Resolve p) s"] rest
    by simp
  have silent: "onErrorCalls (run es (step (Resolve p) s)) = onErrorCalls s"
    if w: "within_session es" and n: "no_stale_error (listeners s) es"
  proof -
    have "no_stale_error (listeners (step (Resolve p) s)) es" using n rest(4) by simp
    with w have "onErrorCalls (run es (step (Resolve p) s)) = onErrorCalls (step (Resolve p) s)"
      by (rule run_onError_frame)
    with rest(2) show ?thesis by simp
  qed
  have first: "onErrorCalls (run es (step (Resolve p) init)) = [] \<and>
      headRequests (run es (step (Resolve p) init)) = [] \<and>
      nextAudio (run es (step (Resolve p) init)) = 0 \<and>
      audioRef (run es (step (Resolve p) init)) = None" if w: "within_session es"
  proof -
    have "quiet (run es (step (Resolve p) init))"
      using w resolve_absent_init [OF assms(1)] by (rule run_quiet)
    then show ?thesis by (simp add: quiet_def)
  qed
  show ?thesis using one rest later silent first by blast
qed

text \<open>
  The theorem in a session without an asset reference that follows a session with one:
  element 0 has handlers attached, element 7 has not.
\<close>

theorem absent_reference_falls_back_silently_witness:
  "\<not> truthy_url (audioUrl absentProps) \<and>
   lifecycle (step (Resolve (assetProps False)) init) \<noteq> Unmounted \<and>
   within_session [TogglePlay, Seek 50, MediaError 7, HeadFailed [], ToggleMute, Unmount] \<and>
   no_stale_error (listeners (step (Resolve (assetProps False)) init))
     [TogglePlay, Seek 50, MediaError 7, HeadFailed [], ToggleMute, Unmount] \<and>
   decision (step (Resolve absentProps) (step (Resolve (assetProps False)) init)) = Fallback \<and>
   nextAudio (step (Resolve absentProps) (step (Resolve (assetProps False)) init)) = 1 \<and>
   headRequests (step (Resolve absentProps) (step (Resolve (assetProps False)) init))
     = [FetchHead ''https://x/a.mp3''] \<and>
   decision (run [TogglePlay, Seek 50, MediaError 7, HeadFailed [], ToggleMute, Unmount]
     (step (Resolve absentProps) (step (Resolve (assetProps False)) init))) = Fallback \<and>
   onErrorCalls (run [TogglePlay, Seek 50, MediaError 7, HeadFailed [], ToggleMute, Unmount]
     (step (Resolve absentProps) (step (Resolve (assetProps False)) init))) = [] \<and>
   headRequests (run [TogglePlay, Seek 50, MediaError 7, HeadFailed [], ToggleMute, Unmount]
     (step (Resolve absentProps) init)) = [] \<and>
   onErrorCalls (run [TogglePlay, Seek 50, MediaError 7, HeadFailed [], ToggleMute, Unmount]
     (step (Resolve absentProps) init)) = []"
proof -
  let ?s = "step (Resolve (assetProps False)) init"
  let ?es = "[TogglePlay, Seek 50, MediaError 7, HeadFailed [], ToggleMute, Unmount]"
  have a: "\<not> truthy_url (audioUrl absentProps)"
    by (simp add: truthy_url_def absentProps_def)
  have l: "lifecycle ?s \<noteq> Unmounted" by code_simp
  have w: "within_session ?es"
    by (simp add: within_session_def is_Resolve_def)
  have m: "no_stale_error (listeners ?s) ?es" by code_simp
  have n: "nextAudio ?s = 1" by code_simp
  have r: "headRequests ?s = [FetchHead ''https://x/a.mp3'']" by code_simp
  have c: "onErrorCalls ?s = []" by code_simp
  show ?thesis
    using a l w m n r c absent_reference_falls_back_silently [OF a l, where es = ?es]
    by simp
qed

text \<open>
  Claim C4 as stated fails for a session that follows one with an asset reference: the
  cleanup (lines 127-130) leaves the \<^verbatim>\<open>onerror\<close> handler on the old element, and when that
  element fires its error event in the session without a reference, \<^verbatim>\<open>onError\<close> is called.
\<close>

theorem absent_session_stale_error_counterexample:
  "decision (run [Resolve (assetProps False), Resolve absentProps] init) = Fallback \<and>
   onErrorCalls (run [Resolve (assetProps False), Resolve absentProps] init) = [] \<and>
   within_session [MediaError 0] \<and>
   onErrorCalls (run [Resolve (assetProps False), Resolve absentProps, MediaError 0] init)
     = [CallOnError ''Audio failed to load'']"
  by code_simp

text \<open>
  Claim C5 on the code. The rejection handler of the HEAD request checks no liveness flag:
  it reads \<^verbatim>\<open>audioRef.current\<close> and calls the state setters of the component. When the
  asset reference changes from \<open>a.mp3\<close> to \<open>b.mp3\<close> and the HEAD request for \<open>a.mp3\<close> fails
  afterwards, the new session, Pending until then, goes to Fallback and the source of its
  own element is cleared. After an unmount the same late failure finds the setters dead and
  an element whose source is already empty: the state it leaves differs in the console
  trace only.
\<close>

theorem late_head_failure_hits_new_session:
  "audioRef (run [Resolve (assetProps False), Resolve otherProps] init) = Some 1 \<and>
   decision (run [Resolve (assetProps False), Resolve otherProps] init) = Pending \<and>
   src (audios (run [Resolve (assetProps False), Resolve otherProps] init) 1)
     = ''https://x/b.mp3'' \<and>
   decision (run [Resolve (assetProps False), Resolve otherProps,
     HeadFailed ''https://x/a.mp3''] init) = Fallback \<and>
   src (audios (run [Resolve (assetProps False), Resolve otherProps,
     HeadFailed ''https://x/a.mp3''] init) 1) = [] \<and>
   run [Resolve (assetProps False), Unmount, HeadFailed ''https://x/a.mp3''] init =
     (run [Resolve (assetProps False), Unmount] init)
       \<lparr>outputs := [FetchHead ''https://x/a.mp3'',
          ConsoleError ''SafeAudioPlayer: HEAD check failed for R2 URL:'']\<rparr>"
proof -
  have "run [Resolve (assetProps False), Unmount, HeadFailed ''https://x/a.mp3''] init =
     (run [Resolve (assetProps False), Unmount] init)
       \<lparr>outputs := [FetchHead ''https://x/a.mp3'',
          ConsoleError ''SafeAudioPlayer: HEAD check failed for R2 URL:'']\<rparr>"
    by (simp add: scenario_defs player_defs Let_def)
  moreover have
    "audioRef (run [Resolve (assetProps False), Resolve otherProps] init) = Some 1 \<and>
     decision (run [Resolve (assetProps False), Resolve otherProps] init) = Pending \<and>
     src (audios (run [Resolve (assetProps False), Resolve otherProps] init) 1)
       = ''https://x/b.mp3'' \<and>
     decision (run [Resolve (assetProps False), Resolve otherProps,
       HeadFailed ''https://x/a.mp3''] init) = Fallback \<and>
     src (audios (run [Resolve (assetProps False), Resolve otherProps,
       HeadFailed ''https://x/a.mp3''] init) 1) = []"
    by code_simp
  ultimately show ?thesis by simp
qed

subsection \<open>The published progress\<close>

lemma pct_range:
  fixes c d :: real
  assumes "0 \<le> c" and "c \<le> d" and "d \<noteq> 0"
  shows "0 \<le> c / d * 100" and "c / d * 100 \<le> 100"
proof -
  have d: "0 < d" using assms by linarith
  show "0 \<le> c / d * 100" using d assms(1) by simp
  show "c / d * 100 \<le> 100" using d assms(2) by (simp add: field_simps)
qed

lemma seek_range:
  fixes v d :: real
  assumes "0 \<le> v" and "v \<le> 100" and "0 \<le> d"
  shows "0 \<le> v / 100 * d" and "v / 100 * d \<le> d"
proof -
  show "0 \<le> v / 100 * d" using assms(1,3) by simp
  have "v * d \<le> 100 * d" using assms(2,3) by (rule mult_right_mono)
  then show "v / 100 * d \<le> d" by simp
qed

lemma audio_ok_cong:
  "currentTime a = currentTime b \<Longrightarrow> mediaDuration a = mediaDuration b \<Longrightarrow>
     audio_ok a = audio_ok b"
  by (simp add: audio_ok_def split: option.splits)

lemma audio_ok_other_fields:
  "audio_ok (a\<lparr>src := u\<rparr>) = audio_ok a"
  "audio_ok (a\<lparr>preload := u\<rparr>) = audio_ok a"
  "audio_ok (a\<lparr>volume := x\<rparr>) = audio_ok a"
  "audio_ok (a\<lparr>paused := b\<rparr>) = audio_ok a"
  by (rule audio_ok_cong; simp)+

lemma audio_ok_new: "audio_ok newAudio"
  by (simp add: audio_ok_def newAudio_def)

lemma audio_ok_metadata:
  "audio_ok a \<Longrightarrow> mediaDuration a = None \<Longrightarrow> 0 \<le> d \<Longrightarrow> audio_ok (a\<lparr>mediaDuration := Some d\<rparr>)"
  by (simp add: audio_ok_def)

lemma audio_ok_time:
  "mediaDuration a = Some d \<Longrightarrow> 0 \<le> t \<Longrightarrow> t \<le> d \<Longrightarrow> audio_ok (a\<lparr>currentTime := t\<rparr>)"
  by (simp add: audio_ok_def)

lemma audio_ok_seek:
  assumes "audio_ok a" and "mediaDuration a = Some d" and "0 \<le> v" and "v \<le> 100"
  shows "audio_ok (a\<lparr>currentTime := v / 100 * d\<rparr>)"
proof -
  have "0 \<le> d" using assms(1,2) by (simp add: audio_ok_def)
  with assms(3,4) have "0 \<le> v / 100 * d" and "v / 100 * d \<le> d" by (rule seek_range)+
  with assms(2) show ?thesis by (rule audio_ok_time)
qed

lemma audio_ok_seek':
  assumes "audio_ok a" and "mediaDuration a = Some d" and "0 \<le> v" and "v \<le> 100"
  shows "audio_ok (a\<lparr>currentTime := v * d / 100\<rparr>)"
  using audio_ok_seek [OF assms] by simp

lemma audio_ok_pct:
  assumes "audio_ok a" and "mediaDuration a = Some d" and "d \<noteq> 0"
  shows "0 \<le> currentTime a / d * 100" and "currentTime a / d * 100 \<le> 100"
proof -
  have "0 \<le> currentTime a" and "currentTime a \<le> d"
    using assms(1,2) by (simp_all add: audio_ok_def)
  then show "0 \<le> currentTime a / d * 100" and "currentTime a / d * 100 \<le> 100"
    using assms(3) by (rule pct_range)+
qed

lemma audio_ok_pct':
  assumes "audio_ok a" and "mediaDuration a = Some d" and "d \<noteq> 0"
  shows "0 \<le> currentTime a * 100 / d" and "currentTime a * 100 / d \<le> 100"
  using audio_ok_pct [OF assms] by simp_all

lemma rerender_audio_ok: "audio_ok (audios (rerender s0 s) h) = audio_ok (audios s h)"
  by (rule audio_ok_cong) (simp_all add: rerender_audio)

lemma progress_inv_rerender: "progress_inv (rerender s0 s) = progress_inv s"
  unfolding progress_inv_def
  by (simp only: rerender_audio_ok rerender_frame rerender_audio)

lemma cleanup_duration:
  "mediaDuration (audios (unmountCleanup s) h) = mediaDuration (audios s h)"
  "mediaDuration (audios (loadEffectCleanup s) h) = mediaDuration (audios s h)"
  "mediaDuration (audios (progressEffectCleanup s) h) = mediaDuration (audios s h)"
  "currentTime (audios (unmountCleanup s) h) = currentTime (audios s h)"
  "currentTime (audios (loadEffectCleanup s) h) = currentTime (audios s h)"
  "currentTime (audios (progressEffectCleanup s) h) = currentTime (audios s h)"
  by (simp_all add: unmountCleanup_def loadEffectCleanup_def progressEffectCleanup_def
        prim_defs Let_def split: option.splits)

lemma cleanup_audio_ok:
  "audio_ok (audios (unmountCleanup s) h) = audio_ok (audios s h)"
  "audio_ok (audios (loadEffectCleanup s) h) = audio_ok (audios s h)"
  "audio_ok (audios (progressEffectCleanup s) h) = audio_ok (audios s h)"
  by (rule audio_ok_cong; simp add: cleanup_duration)+

lemma effects_progress_inv:
  "progress_inv (mutedEffect s) = progress_inv s"
  "progress_inv (progressEffect s) = progress_inv s"
  by (auto simp: progress_inv_def audio_ok_other_fields mutedEffect_def progressEffect_def
        prim_defs split: option.splits)

lemma loadEffect_progress_inv:
  assumes "lifecycle t = Mounted" and "\<forall>h. audio_ok (audios t h)"
  shows "progress_inv (loadEffect p t)"
proof -
  let ?r = "t\<lparr>loadError := False, isLoading := True, isPlaying := False, progress := 0\<rparr>"
  have r: "setProgress 0 (setIsPlaying False (setIsLoading True (setLoadError False t))) = ?r"
    using assms(1) by (simp add: setter_defs)
  have n: "progress_inv (noUrlFallback ?r)"
    using assms
    by (simp add: progress_inv_def noUrlFallback_def setLoadError_def setIsLoading_def
          emit_def split: option.splits)
  have l: "progress_inv (startLoad p url m ?r)" for url m
    using assms(2)
    by (simp add: progress_inv_def audio_ok_other_fields audio_ok_new startLoad_def
          prim_defs Let_def)
  show ?thesis
    using n l by (simp add: loadEffect_def r Let_def split: option.splits)
qed

lemma progress_inv_handle:
  assumes "progress_inv s" and "env_ok e s"
  shows "progress_inv (handle e s)"
proof (cases e)
  case (Resolve p)
  have a: "\<forall>h. audio_ok (audios s h)" using assms(1) by (simp add: progress_inv_def)
  show ?thesis
  proof (cases "lifecycle s")
    case Fresh
    have "progress_inv (loadEffect p (s\<lparr>lifecycle := Mounted, props := p\<rparr>))"
      using a by (intro loadEffect_progress_inv) simp_all
    with Fresh show ?thesis unfolding Resolve by (simp add: effects_progress_inv)
  next
    case Mounted
    have "progress_inv (loadEffect p (loadEffectCleanup (s\<lparr>props := p\<rparr>)))"
      using a Mounted
      by (intro loadEffect_progress_inv) (simp_all add: cleanup_audio_ok cleanup_frame)
    with Mounted show ?thesis unfolding Resolve by simp
  next
    case Unmounted
    with assms(1) show ?thesis unfolding Resolve by simp
  qed
next
  case Unmount
  with assms(1) show ?thesis
    by (simp add: progress_inv_def cleanup_audio_ok cleanup_frame cleanup_duration
          split: option.splits)
next
  case (LoadedMetadata h d)
  with assms show ?thesis
    by (auto simp: progress_inv_def audio_ok_metadata truthy_num_def onloadedmetadata_def
          audio_ok_other_fields setter_defs prim_defs Let_def split: option.splits)
next
  case (MediaError h)
  with assms show ?thesis
    by (auto simp: progress_inv_def onerror_def setter_defs prim_defs Let_def
          split: option.splits)
next
  case (Played h)
  with assms show ?thesis
    by (auto simp: progress_inv_def onplay_def setter_defs split: option.splits)
next
  case (Paused h)
  with assms show ?thesis
    by (auto simp: progress_inv_def onpause_def setter_defs split: option.splits)
next
  case (Ended h)
  with assms show ?thesis
    by (auto simp: progress_inv_def audio_ok_other_fields onended_def setter_defs prim_defs
          Let_def split: option.splits)
next
  case (HeadOk u)
  with assms show ?thesis by simp
next
  case (HeadFailed u)
  with assms show ?thesis
    by (auto simp: progress_inv_def audio_ok_other_fields headCheckFailed_def setter_defs
          prim_defs Let_def split: option.splits)
next
  case (AutoplayRejected h)
  with assms show ?thesis
    by (auto simp: progress_inv_def audio_ok_other_fields autoplayFailed_def prim_defs
          split: option.splits)
next
  case (PlayRejected h)
  with assms show ?thesis
    by (auto simp: progress_inv_def audio_ok_other_fields playFailed_def prim_defs
          split: option.splits)
next
  case (TimeAdvance h t)
  with assms show ?thesis
    by (auto simp: progress_inv_def audio_ok_time prim_defs split: option.splits)
next
  case (Tick t)
  with assms show ?thesis
    by (auto simp: progress_inv_def audio_ok_pct' truthy_num_def progressTick_def
          setProgress_def split: option.splits)
next
  case TogglePlay
  with assms show ?thesis
    by (auto simp: progress_inv_def audio_ok_other_fields togglePlay_def prim_defs
          split: option.splits)
next
  case (Seek v)
  with assms show ?thesis
    by (auto simp: progress_inv_def audio_ok_seek' truthy_num_def handleSeek_def
          setProgress_def audio_upd_def split: option.splits)
next
  case ToggleMute
  with assms show ?thesis
    by (auto simp: progress_inv_def toggleMute_def setter_defs split: option.splits)
qed

lemma progress_inv_step: "progress_inv s \<Longrightarrow> env_ok e s \<Longrightarrow> progress_inv (step e s)"
  by (simp add: step_def progress_inv_rerender progress_inv_handle)

lemma progress_inv_init: "progress_inv init"
  by (simp add: progress_inv_def init_def audio_ok_new)

lemma progress_inv_run: "progress_inv s \<Longrightarrow> env_run es s \<Longrightarrow> progress_inv (run es s)"
  by (induction es arbitrary: s) (simp_all add: progress_inv_step)

lemma sampling_inv_progressEffect:
  assumes "lifecycle t = Mounted \<longrightarrow> truthy_url (audioUrl (props t)) \<longrightarrow> audioRef t \<noteq> None"
  shows "sampling_inv (progressEffect t)"
  using assms
  by (auto simp: sampling_inv_def progressEffect_def clearInterval_def split: option.splits)

lemma sampling_inv_fields:
  assumes "lifecycle s' = lifecycle s" and "props s' = props s"
    and "isPlaying s' = isPlaying s" and "loadError s' = loadError s"
    and "audioRef s' = audioRef s" and "progressIntervalRef s' = progressIntervalRef s"
    and "timers s' = timers s"
  shows "sampling_inv s' = sampling_inv s"
  by (simp only: sampling_inv_def assms)

lemma sampling_inv_mutedEffect: "sampling_inv (mutedEffect s) = sampling_inv s"
  by (rule sampling_inv_fields) (simp_all add: mutedEffect_def audio_upd_def split: option.splits)

lemma sampling_inv_rerender:
  assumes "lifecycle s' = Mounted \<longrightarrow> truthy_url (audioUrl (props s')) \<longrightarrow> audioRef s' \<noteq> None"
    and "isPlaying s' = isPlaying s0 \<and> loadError s' = loadError s0 \<longrightarrow> sampling_inv s'"
  shows "sampling_inv (rerender s0 s')"
proof (cases "isPlaying s' = isPlaying s0 \<and> loadError s' = loadError s0")
  case True
  then have "rerender s0 s' = (if isMuted s' = isMuted s0 then s' else mutedEffect s')"
    by (simp add: rerender_def)
  with True assms(2) show ?thesis by (simp add: sampling_inv_mutedEffect)
next
  case False
  let ?t = "progressEffectCleanup (if isMuted s' = isMuted s0 then s' else mutedEffect s')"
  have r: "rerender s0 s' = progressEffect ?t"
    using False by (auto simp: rerender_def Let_def)
  have "lifecycle ?t = lifecycle s'" "props ?t = props s'" "audioRef ?t = audioRef s'"
    by (simp_all add: progressEffectCleanup_frame mutedEffect_def audio_upd_def
          split: option.splits)
  with assms(1) show ?thesis unfolding r by (intro sampling_inv_progressEffect) simp
qed


lemma handle_session_frame:
  assumes "\<not> is_Resolve e" and "e \<noteq> Unmount"
  shows "lifecycle (handle e s) = lifecycle s" and "props (handle e s) = props s"
    and "audioRef (handle e s) = audioRef s"
    and "progressIntervalRef (handle e s) = progressIntervalRef s"
    and "timers (handle e s) = timers s"
  using assms
  by (cases e; simp add: is_Resolve_def setter_defs prim_defs handler_defs progressTick_def
        Let_def split: option.splits)+

lemma loadEffect_fields:
  assumes "lifecycle t = Mounted"
  shows "lifecycle (loadEffect p t) = Mounted" and "props (loadEffect p t) = props t"
    and "\<not> isPlaying (loadEffect p t)"
    and "progressIntervalRef (loadEffect p t) = progressIntervalRef t"
    and "timers (loadEffect p t) = timers t"
    and "truthy_url (audioUrl p) \<longrightarrow> audioRef (loadEffect p t) \<noteq> None"
proof -
  let ?r = "t\<lparr>loadError := False, isLoading := True, isPlaying := False, progress := 0\<rparr>"
  have r: "setProgress 0 (setIsPlaying False (setIsLoading True (setLoadError False t))) = ?r"
    using assms by (simp add: setter_defs)
  have eq: "loadEffect p t =
      (case audioUrl p of
         None \<Rightarrow> noUrlFallback ?r
       | Some url \<Rightarrow> if url = [] then noUrlFallback ?r else startLoad p url (isMuted t) ?r)"
    by (simp only: loadEffect_def Let_def r)
  show "lifecycle (loadEffect p t) = Mounted" and "props (loadEffect p t) = props t"
    and "\<not> isPlaying (loadEffect p t)"
    and "progressIntervalRef (loadEffect p t) = progressIntervalRef t"
    and "timers (loadEffect p t) = timers t"
    and "truthy_url (audioUrl p) \<longrightarrow> audioRef (loadEffect p t) \<noteq> None"
    unfolding eq using assms
    by (simp_all add: noUrlFallback_def startLoad_def setLoadError_def setIsLoading_def
          prim_defs truthy_url_def Let_def split: option.splits)
qed

lemma sampling_inv_session_step:
  assumes "sampling_inv s" and "\<not> is_Resolve e" and "e \<noteq> Unmount"
  shows "sampling_inv (step e s)"
proof -
  note f = handle_session_frame [OF assms(2,3), of s]
  have u: "lifecycle (handle e s) = Mounted \<longrightarrow>
      truthy_url (audioUrl (props (handle e s))) \<longrightarrow> audioRef (handle e s) \<noteq> None"
    using assms(1) by (simp add: f sampling_inv_def)
  have i: "sampling_inv (handle e s)"
    if "isPlaying (handle e s) = isPlaying s \<and> loadError (handle e s) = loadError s"
  proof -
    have "sampling_inv (handle e s) = sampling_inv s"
      using f that by (intro sampling_inv_fields) simp_all
    with assms(1) show ?thesis by simp
  qed
  show ?thesis unfolding step_def using u i by (intro sampling_inv_rerender) simp_all
qed

lemma sampling_inv_step:
  assumes "sampling_inv s"
  shows "sampling_inv (step e s)"
proof (cases e)
  case (Resolve p)
  show ?thesis
  proof (cases "lifecycle s")
    case Fresh
    let ?t = "s\<lparr>lifecycle := Mounted, props := p\<rparr>"
    have t: "lifecycle ?t = Mounted" by simp
    note f = loadEffect_fields [OF t, of p]
    have h: "handle e s = progressEffect (mutedEffect (loadEffect p ?t))"
      using Fresh Resolve by simp
    have u: "truthy_url (audioUrl (props (mutedEffect (loadEffect p ?t)))) \<longrightarrow>
        audioRef (mutedEffect (loadEffect p ?t)) \<noteq> None"
      using f(2,6) by (simp add: effects_frame)
    then have i: "sampling_inv (handle e s)"
      unfolding h by (intro sampling_inv_progressEffect) simp
    have "truthy_url (audioUrl (props (handle e s))) \<longrightarrow> audioRef (handle e s) \<noteq> None"
      using u unfolding h by (simp add: effects_frame)
    with i show ?thesis unfolding step_def by (intro sampling_inv_rerender) simp_all
  next
    case Mounted
    let ?t = "loadEffectCleanup (s\<lparr>props := p\<rparr>)"
    have t: "lifecycle ?t = Mounted" using Mounted by (simp add: loadEffectCleanup_frame)
    note f = loadEffect_fields [OF t, of p]
    have h: "handle e s = loadEffect p ?t" using Mounted Resolve by simp
    have u: "truthy_url (audioUrl (props (handle e s))) \<longrightarrow> audioRef (handle e s) \<noteq> None"
      unfolding h using f(2,6) by (simp add: loadEffectCleanup_frame)
    have i: "sampling_inv (handle e s)" if "isPlaying (handle e s) = isPlaying s"
    proof -
      have "\<not> isPlaying s" using that f(3) unfolding h by simp
      with assms Mounted have "progressIntervalRef s = None" by (simp add: sampling_inv_def)
      then have "progressIntervalRef (handle e s) = None"
        unfolding h using f(4) by (simp add: loadEffectCleanup_frame)
      with u f(3) show ?thesis unfolding h by (simp add: sampling_inv_def)
    qed
    show ?thesis unfolding step_def using u i by (intro sampling_inv_rerender) simp_all
  next
    case Unmounted
    then have "step e s = s" using Resolve by (simp add: step_def rerender_same)
    with assms show ?thesis by simp
  qed
next
  case Unmount
  have "lifecycle (step e s) \<noteq> Mounted"
    unfolding Unmount by (simp add: step_def rerender_frame cleanup_frame)
  then show ?thesis by (simp add: sampling_inv_def)
qed (use assms in \<open>simp_all add: sampling_inv_session_step is_Resolve_def\<close>)

lemma sampling_inv_run: "sampling_inv s \<Longrightarrow> sampling_inv (run es s)"
  by (induction es arbitrary: s) (simp_all add: sampling_inv_step)

lemma sampling_inv_init: "sampling_inv init"
  by (simp add: sampling_inv_def init_def)

lemma progressTick_same:
  "isMuted (progressTick s) = isMuted s" "isPlaying (progressTick s) = isPlaying s"
  "loadError (progressTick s) = loadError s"
  by (simp_all add: progressTick_def setProgress_def split: option.splits)

lemma step_Tick: "t \<in> set (timers s) \<Longrightarrow> step (Tick t) s = progressTick s"
  by (simp add: step_def rerender_same progressTick_same)

lemma tick_publishes:
  assumes "progress_inv s" and "lifecycle s = Mounted" and "audioRef s = Some h"
  shows "positionFraction (progressTick s) = spec_positionFraction (audios s h)"
  using assms
  by (auto simp: progress_inv_def truthy_num_def positionFraction_def spec_positionFraction_def
        progressTick_def setProgress_def split: option.splits)

lemma progress_inv_fraction:
  assumes "progress_inv s"
  shows "0 \<le> positionFraction s" and "positionFraction s \<le> 1"
    and "case audioRef s of
           None \<Rightarrow> positionFraction s = 0
         | Some h \<Rightarrow> truthy_num (mediaDuration (audios s h)) \<or> positionFraction s = 0"
  using assms by (auto simp: progress_inv_def positionFraction_def split: option.splits)

lemma sampling_when_real:
  assumes "sampling_inv s" and "lifecycle s = Mounted" and "decision s = Real"
    and "isPlaying s"
  shows "\<exists>t h. progressIntervalRef s = Some t \<and> t \<in> set (timers s) \<and> audioRef s = Some h"
proof -
  have "\<not> loadError s" and "truthy_url (audioUrl (props s))"
    using assms(3) by (simp_all add: decision_def split: if_splits)
  with assms(1,2,4) show ?thesis by (auto simp: sampling_inv_def)
qed

text \<open>
  Claim C6. In every state the component reaches from its initial state, with a slider that
  hands over values between 0 and 100 and audio elements whose position stays within their
  duration, the published percentage lies between 0 and 100, so the fraction lies between 0
  and 1, and it is 0 as long as the current element's duration is unknown or 0. While the component is mounted, the decision is Real
  and the audio is playing, an interval is running, and its tick publishes the position
  divided by the duration, or leaves the fraction at 0 when the duration is unknown or 0.
\<close>

theorem published_fraction_in_range:
  assumes "env_run es init"
  shows "let s = run es init in
     0 \<le> progress s \<and> progress s \<le> 100 \<and>
     0 \<le> positionFraction s \<and> positionFraction s \<le> 1 \<and>
     (case audioRef s of
        None \<Rightarrow> positionFraction s = 0
      | Some h \<Rightarrow> truthy_num (mediaDuration (audios s h)) \<or> positionFraction s = 0) \<and>
     (lifecycle s = Mounted \<and> decision s = Real \<and> isPlaying s \<longrightarrow>
        (\<exists>t h. progressIntervalRef s = Some t \<and> t \<in> set (timers s) \<and> audioRef s = Some h \<and>
           positionFraction (step (Tick t) s) = spec_positionFraction (audios s h) \<and>
           0 \<le> positionFraction (step (Tick t) s) \<and> positionFraction (step (Tick t) s) \<le> 1))"
proof -
  define s where "s = run es init"
  have p: "progress_inv s"
    unfolding s_def using progress_inv_init assms by (rule progress_inv_run)
  have q: "sampling_inv s"
    unfolding s_def using sampling_inv_init by (rule sampling_inv_run)
  note r = progress_inv_fraction [OF p]
  have b: "0 \<le> progress s" "progress s \<le> 100"
    using p by (simp_all add: progress_inv_def)
  have live: "\<exists>t h. progressIntervalRef s = Some t \<and> t \<in> set (timers s) \<and> audioRef s = Some h \<and>
      positionFraction (step (Tick t) s) = spec_positionFraction (audios s h) \<and>
      0 \<le> positionFraction (step (Tick t) s) \<and> positionFraction (step (Tick t) s) \<le> 1"
    if m: "lifecycle s = Mounted" and d: "decision s = Real" and i: "isPlaying s"
  proof -
    from sampling_when_real [OF q m d i] obtain t h
      where t: "progressIntervalRef s = Some t" "t \<in> set (timers s)" "audioRef s = Some h"
      by blast
    have e: "env_ok (Tick t) s" by simp
    have "progress_inv (step (Tick t) s)" using p e by (rule progress_inv_step)
    then have "0 \<le> positionFraction (step (Tick t) s)"
      and "positionFraction (step (Tick t) s) \<le> 1"
      by (rule progress_inv_fraction)+
    moreover have "positionFraction (step (Tick t) s) = spec_positionFraction (audios s h)"
      using t(2) tick_publishes [OF p m t(3)] by (simp add: step_Tick)
    ultimately show ?thesis using t by blast
  qed
  show ?thesis
    unfolding Let_def s_def [symmetric] using b r live by blast
qed

theorem published_fraction_in_range_witness:
  "env_run [Resolve (assetProps False), LoadedMetadata 0 30, TogglePlay, Played 0,
     TimeAdvance 0 12] init \<and>
   lifecycle (run [Resolve (assetProps False), LoadedMetadata 0 30, TogglePlay, Played 0,
     TimeAdvance 0 12] init) = Mounted \<and>
   decision (run [Resolve (assetProps False), LoadedMetadata 0 30, TogglePlay, Played 0,
     TimeAdvance 0 12] init) = Real \<and>
   isPlaying (run [Resolve (assetProps False), LoadedMetadata 0 30, TogglePlay, Played 0,
     TimeAdvance 0 12] init) \<and>
   progressIntervalRef (run [Resolve (assetProps False), LoadedMetadata 0 30, TogglePlay,
     Played 0, TimeAdvance 0 12] init) = Some 1 \<and>
   audioRef (run [Resolve (assetProps False), LoadedMetadata 0 30, TogglePlay, Played 0,
     TimeAdvance 0 12] init) = Some 0 \<and>
   positionFraction (run [Resolve (assetProps False), LoadedMetadata 0 30, TogglePlay, Played 0,
     TimeAdvance 0 12] init) = 0 \<and>
   positionFraction (step (Tick 1) (run [Resolve (assetProps False), LoadedMetadata 0 30,
     TogglePlay, Played 0, TimeAdvance 0 12] init)) = 2 / 5"
proof -
  let ?es = "[Resolve (assetProps False), LoadedMetadata 0 30, TogglePlay, Played 0,
     TimeAdvance 0 12]"
  let ?s = "run ?es init"
  have e: "env_run ?es init" by code_simp
  have m: "lifecycle ?s = Mounted" by code_simp
  have d: "decision ?s = Real" by code_simp
  have i: "isPlaying ?s" by code_simp
  have t: "progressIntervalRef ?s = Some 1" by code_simp
  have a: "audioRef ?s = Some 0" by code_simp
  have z: "positionFraction ?s = 0" by code_simp
  have f: "spec_positionFraction (audios ?s 0) = 2 / 5" by code_simp
  from published_fraction_in_range [OF e]
  have "\<exists>t h. progressIntervalRef ?s = Some t \<and> t \<in> set (timers ?s) \<and> audioRef ?s = Some h \<and>
      positionFraction (step (Tick t) ?s) = spec_positionFraction (audios ?s h)"
    using m d i unfolding Let_def by blast
  then have "positionFraction (step (Tick 1) ?s) = spec_positionFraction (audios ?s 0)"
    using t a by auto
  with e m d i t a z f show ?thesis by simp
qed

subsection \<open>Seeking\<close>

lemma seek_same: "isMuted (handleSeek v s) = isMuted s"
  "isPlaying (handleSeek v s) = isPlaying s" "loadError (handleSeek v s) = loadError s"
  by (simp_all add: handleSeek_def setProgress_def audio_upd_def split: option.splits)

lemma step_Seek: "step (Seek v) s = handleSeek v s"
  by (simp add: step_def rerender_same seek_same)

text \<open>
  Claim C7. \<^verbatim>\<open>handleSeek\<close> does nothing without an audio element or while the element's
  duration is unknown or 0. With a duration \<open>d\<close> it assigns \<open>v / 100 * d\<close> to the element's
  position and publishes \<open>v\<close> in the same step, before any interval tick; with a duration
  of 30, seeking to 50 puts the element at 15 seconds and the published fraction at one half.
\<close>

theorem seek_assigns_position:
  "(audioRef s = None \<longrightarrow> step (Seek v) s = s) \<and>
   (audioRef s = Some h \<and> \<not> truthy_num (mediaDuration (audios s h)) \<longrightarrow>
      step (Seek v) s = s) \<and>
   (lifecycle s = Mounted \<and> audioRef s = Some h \<and> mediaDuration (audios s h) = Some d \<and>
    d \<noteq> 0 \<longrightarrow>
      currentTime (audios (step (Seek v) s) h) = v / 100 * d \<and>
      progress (step (Seek v) s) = v \<and>
      positionFraction (step (Seek v) s) = v / 100) \<and>
   (lifecycle s = Mounted \<and> audioRef s = Some h \<and> mediaDuration (audios s h) = Some 30
    \<longrightarrow>
      currentTime (audios (step (Seek 50) s) h) = 15 \<and>
      positionFraction (step (Seek 50) s) = 1 / 2)"
  unfolding step_Seek
  by (auto simp: handleSeek_def truthy_num_def positionFraction_def setProgress_def
        audio_upd_def split: option.splits)

theorem seek_assigns_position_witness:
  "lifecycle (run [Resolve (assetProps False), HeadOk ''https://x/a.mp3'', LoadedMetadata 0 30]
     init) = Mounted \<and>
   audioRef (run [Resolve (assetProps False), HeadOk ''https://x/a.mp3'', LoadedMetadata 0 30]
     init) = Some 0 \<and>
   mediaDuration (audios (run [Resolve (assetProps False), HeadOk ''https://x/a.mp3'',
     LoadedMetadata 0 30] init) 0) = Some 30 \<and>
   decision (run [Resolve (assetProps False), HeadOk ''https://x/a.mp3'', LoadedMetadata 0 30]
     init) = Real \<and>
   currentTime (audios (step (Seek 50) (run [Resolve (assetProps False),
     HeadOk ''https://x/a.mp3'', LoadedMetadata 0 30] init)) 0) = 15 \<and>
   positionFraction (step (Seek 50) (run [Resolve (assetProps False),
     HeadOk ''https://x/a.mp3'', LoadedMetadata 0 30] init)) = 1 / 2 \<and>
   audioRef (step (Resolve absentProps) init) = None \<and>
   step (Seek 50) (step (Resolve absentProps) init) = step (Resolve absentProps) init"
proof -
  let ?s = "run [Resolve (assetProps False), HeadOk ''https://x/a.mp3'', LoadedMetadata 0 30] init"
  let ?n = "step (Resolve absentProps) init"
  have m: "lifecycle ?s = Mounted" by code_simp
  have a: "audioRef ?s = Some 0" by code_simp
  have d: "mediaDuration (audios ?s 0) = Some 30" by code_simp
  have r: "decision ?s = Real" by code_simp
  have n: "audioRef ?n = None" by code_simp
  show ?thesis
    using m a d r n seek_assigns_position [of ?s 50 0 30] seek_assigns_position [of ?n 50 0 30]
    by simp
qed

subsection \<open>A rejected autoplay attempt\<close>

lemma autoplayRejected_same:
  "isMuted (autoplayFailed (audio_pause h s)) = isMuted s"
  "isPlaying (autoplayFailed (audio_pause h s)) = isPlaying s"
  "loadError (autoplayFailed (audio_pause h s)) = loadError s"
  by (simp_all add: autoplayFailed_def prim_defs)

lemma step_AutoplayRejected:
  "step (AutoplayRejected h) s = autoplayFailed (audio_pause h s)"
  by (simp add: step_def rerender_same autoplayRejected_same)

lemma loadedMetadata_real:
  assumes "lifecycle s = Mounted" and "listeners s h = Some p" and "\<not> loadError s"
    and "truthy_url (audioUrl (props s))"
  shows "decision (step (LoadedMetadata h d) s) = Real"
  using assms unfolding decision_step
  by (simp add: decision_def onloadedmetadata_def setter_defs prim_defs Let_def)

text \<open>
  Claim C8. The rejection handler of the autoplay attempt (lines 86-88) writes one error to
  the console and nothing else: the decision, \<^verbatim>\<open>loadError\<close> and the calls of \<^verbatim>\<open>onError\<close>
  are what they were. After metadata has loaded with no failure recorded, the decision is
  Real, and it is still Real when the autoplay attempt is rejected afterwards.
\<close>

theorem autoplay_failure_is_logged_only:
  "decision (step (AutoplayRejected h) s) = decision s \<and>
   loadError (step (AutoplayRejected h) s) = loadError s \<and>
   onErrorCalls (step (AutoplayRejected h) s) = onErrorCalls s \<and>
   outputs (step (AutoplayRejected h) s) =
     outputs s @ [ConsoleError ''SafeAudioPlayer: Autoplay failed:''] \<and>
   (lifecycle s = Mounted \<and> listeners s h = Some p \<and> autoPlay p \<and> \<not> loadError s \<and>
    truthy_url (audioUrl (props s)) \<longrightarrow>
      decision (run [LoadedMetadata h d, AutoplayRejected h] s) = Real \<and>
      onErrorCalls (run [LoadedMetadata h d, AutoplayRejected h] s) = onErrorCalls s)"
proof -
  have a: "decision (step (AutoplayRejected h) t) = decision t"
    "loadError (step (AutoplayRejected h) t) = loadError t"
    "onErrorCalls (step (AutoplayRejected h) t) = onErrorCalls t"
    "outputs (step (AutoplayRejected h) t) =
       outputs t @ [ConsoleError ''SafeAudioPlayer: Autoplay failed:'']" for t
    unfolding step_AutoplayRejected
    by (simp_all add: decision_def onErrorCalls_def autoplayFailed_def prim_defs)
  have b: "onErrorCalls (step (LoadedMetadata h d) s) = onErrorCalls s"
    by (simp add: onErrorCalls_def step_def rerender_frame onloadedmetadata_def setter_defs
        prim_defs Let_def split: option.splits)
  show ?thesis using a [of s] a(1,3) [of "step (LoadedMetadata h d) s"] b
    by (simp add: loadedMetadata_real)
qed

theorem autoplay_failure_is_logged_only_witness:
  "lifecycle (step (Resolve (assetProps True)) init) = Mounted \<and>
   listeners (step (Resolve (assetProps True)) init) 0 = Some (assetProps True) \<and>
   autoPlay (assetProps True) \<and>
   \<not> loadError (step (Resolve (assetProps True)) init) \<and>
   truthy_url (audioUrl (props (step (Resolve (assetProps True)) init))) \<and>
   decision (run [LoadedMetadata 0 30, AutoplayRejected 0]
     (step (Resolve (assetProps True)) init)) = Real \<and>
   onErrorCalls (run [LoadedMetadata 0 30, AutoplayRejected 0]
     (step (Resolve (assetProps True)) init)) = []"
proof -
  let ?s = "step (Resolve (assetProps True)) init"
  have m: "lifecycle ?s = Mounted" by code_simp
  have l: "listeners ?s 0 = Some (assetProps True)" by code_simp
  have p: "autoPlay (assetProps True)" by code_simp
  have e: "\<not> loadError ?s" by code_simp
  have u: "truthy_url (audioUrl (props ?s))" by code_simp
  have c: "onErrorCalls ?s = []" by code_simp
  show ?thesis
    using m l p e u c autoplay_failure_is_logged_only [of 0 ?s "assetProps True" 30]
    by simp
qed

subsection \<open>Teardown\<close>

lemma unmountCleanup_idem: "unmountCleanup (unmountCleanup s) = unmountCleanup s"
  by (simp add: unmountCleanup_def prim_defs Let_def split: option.splits)

lemma loadEffectCleanup_idem: "loadEffectCleanup (loadEffectCleanup s) = loadEffectCleanup s"
  by (simp add: loadEffectCleanup_def prim_defs split: option.splits)

lemma progressEffectCleanup_idem:
  "progressEffectCleanup (progressEffectCleanup s) = progressEffectCleanup s"
  by (simp add: progressEffectCleanup_def prim_defs split: option.splits)

lemma loadEffectCleanup_after_unmountCleanup:
  "loadCleanup s = audioRef s \<Longrightarrow> loadEffectCleanup (unmountCleanup s) = unmountCleanup s"
  by (simp add: loadEffectCleanup_def unmountCleanup_def prim_defs Let_def
      split: option.splits)

lemma step_Unmount_idem: "step Unmount (step Unmount s) = step Unmount s"
proof -
  have u: "step Unmount t = handle Unmount t" for t
    by (simp add: step_def rerender_same cleanup_frame)
  have "lifecycle (handle Unmount s) \<noteq> Mounted" by (simp add: cleanup_frame)
  then have "handle Unmount (handle Unmount s) = handle Unmount s" by simp
  then show ?thesis by (simp only: u)
qed

text \<open>
  Claim C9. Each cleanup of the component is idempotent on the whole state, the console and
  callback trace included: the cleanup registered on mount (clear the interval, pause the
  element, clear its source), the cleanup of the load effect (pause, clear the source) and
  the cleanup of the progress effect (clear the interval). On unmount the first two run one
  after the other on the same element, and the second changes nothing; unmounting twice is
  unmounting once.
\<close>

theorem teardown_idempotent:
  "unmountCleanup (unmountCleanup s) = unmountCleanup s \<and>
   loadEffectCleanup (loadEffectCleanup s) = loadEffectCleanup s \<and>
   progressEffectCleanup (progressEffectCleanup s) = progressEffectCleanup s \<and>
   (loadCleanup s = audioRef s \<longrightarrow> loadEffectCleanup (unmountCleanup s) = unmountCleanup s) \<and>
   step Unmount (step Unmount s) = step Unmount s"
  using unmountCleanup_idem loadEffectCleanup_idem progressEffectCleanup_idem
    loadEffectCleanup_after_unmountCleanup step_Unmount_idem
  by blast

theorem teardown_idempotent_witness:
  "loadCleanup (run [Resolve (assetProps True), LoadedMetadata 0 30, Played 0] init) =
     audioRef (run [Resolve (assetProps True), LoadedMetadata 0 30, Played 0] init) \<and>
   timers (run [Resolve (assetProps True), LoadedMetadata 0 30, Played 0] init) = [1] \<and>
   src (audios (run [Resolve (assetProps True), LoadedMetadata 0 30, Played 0] init) 0)
     = ''https://x/a.mp3'' \<and>
   timers (unmountCleanup (run [Resolve (assetProps True), LoadedMetadata 0 30, Played 0] init))
     = [] \<and>
   src (audios (unmountCleanup
     (run [Resolve (assetProps True), LoadedMetadata 0 30, Played 0] init)) 0) = [] \<and>
   unmountCleanup (unmountCleanup
     (run [Resolve (assetProps True), LoadedMetadata 0 30, Played 0] init)) =
     unmountCleanup (run [Resolve (assetProps True), LoadedMetadata 0 30, Played 0] init) \<and>
   loadEffectCleanup (unmountCleanup
     (run [Resolve (assetProps True), LoadedMetadata 0 30, Played 0] init)) =
     unmountCleanup (run [Resolve (assetProps True), LoadedMetadata 0 30, Played 0] init)"
proof -
  let ?s = "run [Resolve (assetProps True), LoadedMetadata 0 30, Played 0] init"
  have a: "loadCleanup ?s = audioRef ?s" by code_simp
  have t: "timers ?s = [1]" by code_simp
  have u: "src (audios ?s 0) = ''https://x/a.mp3''" by code_simp
  have t': "timers (unmountCleanup ?s) = []" by code_simp
  have u': "src (audios (unmountCleanup ?s) 0) = []" by code_simp
  show ?thesis
    using a t u t' u' teardown_idempotent [of ?s] by simp
qed
section \<open>Properties of stripBlankMarker\<close>























end
